theory Spec2Isabelle
  imports Main
begin

section \<open>Python values, exceptions and rows\<close>

text \<open>
  The exceptions that \<^verbatim>\<open>src/cots/__init__.py\<close> can raise by itself:
  \<^verbatim>\<open>KeyError\<close> from a subscript on a missing key, \<^verbatim>\<open>TypeError\<close> from
  \<^verbatim>\<open>None + 1\<close> and from a subscript on \<^verbatim>\<open>None\<close>, and
  \<^verbatim>\<open>UnboundLocalError\<close> from reading a local name that no branch has bound.
  A function that can raise returns \<open>error + 'a\<close>, with \<open>Inl\<close> for the exception.
\<close>

datatype error = KeyError string | TypeError | UnboundLocalError string

definition and_then :: "error + 'a \<Rightarrow> ('a \<Rightarrow> error + 'b) \<Rightarrow> error + 'b" where
  "and_then r f = (case r of Inl e \<Rightarrow> Inl e | Inr x \<Rightarrow> f x)"

text \<open>
  A row is a pandas \<^verbatim>\<open>Series\<close> addressed by column name: a map from the column
  name to the cell. Cells are text; a blank cell, which pandas reads as a float, is not
  modelled. \<^verbatim>\<open>row[k]\<close> raises \<^verbatim>\<open>KeyError\<close> when the table has no column \<open>k\<close>.
  The rows of one table share their columns.
\<close>

type_synonym row = "string \<rightharpoonup> string"

definition getitem :: "row \<Rightarrow> string \<Rightarrow> error + string" where
  "getitem row k = (case row k of None \<Rightarrow> Inl (KeyError k) | Some v \<Rightarrow> Inr v)"

text \<open>\<^verbatim>\<open>str(i)\<close> of a Python integer: its decimal digits, with a minus sign below zero.\<close>

definition digit :: "nat \<Rightarrow> char" where
  "digit d = ''0123456789'' ! d"

fun str_nat :: "nat \<Rightarrow> string" where
  "str_nat n = (if n < 10 then [digit n] else str_nat (n div 10) @ [digit (n mod 10)])"

declare str_nat.simps [simp del]

definition str_int :: "int \<Rightarrow> string" where
  "str_int i = (if i < 0 then CHR ''-'' # str_nat (nat (- i)) else str_nat (nat i))"

section \<open>Configuration\<close>

text \<open>
  \<^verbatim>\<open>App._load_config\<close> and \<^verbatim>\<open>COTS2021.__init__\<close> fill a nested dictionary from the
  environment. \<^verbatim>\<open>os.getenv\<close> gives \<^verbatim>\<open>None\<close> for an unset variable, so every
  value read from the environment is an option; the \<^verbatim>\<open>"firebase"\<close> sub-dictionary
  exists only when the storage type is \<^verbatim>\<open>"firebase"\<close>.
\<close>

type_synonym environ = "string \<rightharpoonup> string"

record firebase_config =
  cred :: "string option"
  project_id :: "string option"
  collection_name :: "string option"
  document_name :: "string option"

record working_storage =
  storage_type :: string
  firebase :: "firebase_config option"

record folder_ids =
  individual :: "string option"
  panel :: "string option"
  roundtable :: "string option"

record config =
  form_response_id :: "string option"
  sheet_name :: "string option"
  working_storage :: working_storage
  folder_ids :: folder_ids

definition getenv_default :: "environ \<Rightarrow> string \<Rightarrow> string \<Rightarrow> string" where
  "getenv_default env k d = (case env k of None \<Rightarrow> d | Some v \<Rightarrow> v)"

definition load_working_storage :: "environ \<Rightarrow> working_storage" where
  "load_working_storage env =
     (let working_storage_type = getenv_default env ''WORKING_STORAGE_TYPE'' ''file''
      in \<lparr>storage_type = working_storage_type,
          firebase =
            (if working_storage_type = ''firebase''
             then Some \<lparr>cred = env ''GOOGLE_APPLICATION_CREDENTIALS'',
                        project_id = env ''FIREBASE_PROJECT_ID'',
                        collection_name = env ''WORKING_COLLECTION_NAME'',
                        document_name = env ''WORKING_DOCUMENT_NAME''\<rparr>
             else None)\<rparr>)"

definition load_config :: "environ \<Rightarrow> config" where
  "load_config env =
     \<lparr>form_response_id = env ''APP_FORM_RESPONSE_ID'',
      sheet_name = env ''APP_SHEET_NAME'',
      working_storage = load_working_storage env,
      folder_ids =
        \<lparr>individual = env ''INDIVIDUAL_PROPOSAL_FOLDER_ID'',
         panel = env ''PANEL_PROPOSAL_FOLDER_ID'',
         roundtable = env ''ROUNDTABLE_PROPOSAL_FOLDER_ID''\<rparr>\<rparr>"

section \<open>Documents, the Drive request and the trace of effects\<close>

text \<open>
  What the code asks python-docx to build: a heading with its level, or a paragraph of
  runs, each run a text with its bold flag.
\<close>

datatype run = Run string bool

datatype block = Heading string nat | Paragraph "run list"

record document =
  normal_font :: string
  blocks :: "block list"

record file_metadata =
  name :: string
  mimeType :: string
  parents :: "string option list"

record request =
  body :: file_metadata
  media_body :: document
  media_mimetype :: string
  fields_arg :: string

text \<open>
  The Drive service is outside the program: it answers a \<^verbatim>\<open>files().create\<close> request
  either by creating the file or with \<^verbatim>\<open>HttpError\<close>, the one exception
  \<^verbatim>\<open>parse_row\<close> handles.
\<close>

datatype response = Created | HttpError

type_synonym gservice = "request \<Rightarrow> response"

text \<open>
  The Firestore database: a document, when it exists, is a dictionary of integer fields
  at an address (collection name, document name), the two names as the configuration
  gives them. The database is taken to be reachable.
\<close>

type_synonym address = "string option \<times> string option"

type_synonym firestore = "address \<rightharpoonup> (string \<rightharpoonup> int)"

text \<open>
  Every function returns, beside its result, the effects it had, in the order they
  happened. \<open>ParseRow i\<close> marks a call \<^verbatim>\<open>parse_row(i, row)\<close>; \<open>FilesCreate\<close> is a
  request sent to Drive with its answer; \<open>DbSet\<close> is a Firestore \<^verbatim>\<open>set\<close>;
  \<open>Sleep\<close> is the pause between rows; the others are the lines written to the logger
  at level info and error, and the debug line of \<^verbatim>\<open>get_last_processed_row\<close>.
\<close>

datatype event =
    ParseRow int
  | LogGetting "string option" "string option"
  | LogFound nat
  | LogUploading string "string option"
  | LogHttpError
  | FilesCreate request response
  | Sleep nat
  | DbSet address int

section \<open>The checkpoint in the working storage\<close>

text \<open>
  \<^verbatim>\<open>get_last_processed_row\<close> has one branch, for the storage type
  \<^verbatim>\<open>"firebase"\<close>; with any other type the function ends without a \<^verbatim>\<open>return\<close> and
  gives \<^verbatim>\<open>None\<close>. In the branch, \<^verbatim>\<open>to_dict()\<close> of a document that does not exist is
  \<^verbatim>\<open>None\<close>, and the subscript on it raises \<^verbatim>\<open>TypeError\<close>.
\<close>

definition get_last_processed_row ::
  "config \<Rightarrow> firestore \<Rightarrow> (error + int option) \<times> event list" where
  "get_last_processed_row cfg db =
     (if storage_type (working_storage cfg) = ''firebase'' then
        (case firebase (working_storage cfg) of
           None \<Rightarrow> (Inl (KeyError ''firebase''), [])
         | Some fb \<Rightarrow>
             (case db (collection_name fb, document_name fb) of
                None \<Rightarrow> (Inl TypeError, [LogGetting (collection_name fb) (document_name fb)])
              | Some doc \<Rightarrow>
                  (case doc ''last_processed_row'' of
                     None \<Rightarrow> (Inl (KeyError ''last_processed_row''),
                              [LogGetting (collection_name fb) (document_name fb)])
                   | Some v \<Rightarrow> (Inr (Some v),
                              [LogGetting (collection_name fb) (document_name fb)]))))
      else (Inr None, []))"

text \<open>
  \<^verbatim>\<open>update_last_processed_row\<close> replaces the whole document by the single field
  \<^verbatim>\<open>last_processed_row\<close>, again only for the storage type \<^verbatim>\<open>"firebase"\<close>.
\<close>

definition update_last_processed_row ::
  "config \<Rightarrow> int \<Rightarrow> firestore \<Rightarrow> (error + unit) \<times> firestore \<times> event list" where
  "update_last_processed_row cfg row_idx db =
     (if storage_type (working_storage cfg) = ''firebase'' then
        (case firebase (working_storage cfg) of
           None \<Rightarrow> (Inl (KeyError ''firebase''), db, [])
         | Some fb \<Rightarrow>
             (Inr (),
              db((collection_name fb, document_name fb) \<mapsto> [''last_processed_row'' \<mapsto> row_idx]),
              [DbSet (collection_name fb, document_name fb) row_idx]))
      else (Inr (), db, []))"

section \<open>Building the document of a row\<close>

definition create_base_doc :: "int \<Rightarrow> row \<Rightarrow> string \<Rightarrow> error + document" where
  "create_base_doc idx row heading =
     and_then (getitem row ''First name'') (\<lambda>first_name.
     and_then (getitem row ''Last name'') (\<lambda>last_name.
     let fullname = first_name @ '' '' @ last_name in
     and_then (getitem row ''Email address'') (\<lambda>email.
     and_then (getitem row ''Timestamp'') (\<lambda>timestamp.
     and_then (getitem row ''Affiliation'') (\<lambda>affiliation.
     Inr \<lparr>normal_font = ''Arial'',
          blocks =
            [Heading heading 0,
             Paragraph [Run ''Submitted by:'' True,
                        Run ('' '' @ fullname @ '' ('' @ email @ '')'') False,
                        Run '' At:'' True,
                        Run ('' '' @ timestamp) False],
             Paragraph [Run ''Affiliation:'' True,
                        Run ('' '' @ affiliation) False]]\<rparr>)))))"

definition add_heading :: "string \<Rightarrow> nat \<Rightarrow> document \<Rightarrow> document" where
  "add_heading t level d = d\<lparr>blocks := blocks d @ [Heading t level]\<rparr>"

definition add_paragraph :: "string \<Rightarrow> document \<Rightarrow> document" where
  "add_paragraph t d = d\<lparr>blocks := blocks d @ [Paragraph [Run t False]]\<rparr>"

definition create_individual_proposal_doc :: "int \<Rightarrow> row \<Rightarrow> error + document" where
  "create_individual_proposal_doc idx row =
     and_then (create_base_doc idx row ''Individual/Film/Other'') (\<lambda>d0.
     let d1 = add_heading ''Abstract'' 1 d0 in
     and_then (getitem row ''Abstract'') (\<lambda>abstract.
     Inr (add_paragraph abstract d1)))"

definition create_panel_proposal_doc :: "int \<Rightarrow> row \<Rightarrow> error + document" where
  "create_panel_proposal_doc idx row =
     and_then (create_base_doc idx row ''Panel'') (\<lambda>d0.
     let d1 = add_heading ''Topic'' 1 d0 in
     and_then (getitem row ''Topic of the panel'') (\<lambda>topic.
     let d2 = add_heading ''Panelists'' 1 (add_paragraph topic d1) in
     and_then (getitem row ''Names of the panelists'') (\<lambda>panelists.
     let d3 = add_heading ''Emails'' 1 (add_paragraph panelists d2) in
     and_then (getitem row ''Contact information of the panelists'') (\<lambda>emails.
     let d4 = add_heading ''Abstracts'' 1 (add_paragraph emails d3) in
     and_then (getitem row ''Abstracts'') (\<lambda>abstracts.
     Inr (add_paragraph abstracts d4))))))"

definition create_roundtable_proposal_doc :: "int \<Rightarrow> row \<Rightarrow> error + document" where
  "create_roundtable_proposal_doc idx row =
     and_then (create_base_doc idx row ''Roundtable'') (\<lambda>d0.
     let d1 = add_heading ''Abstract'' 1 d0 in
     and_then (getitem row ''Abstract.1'') (\<lambda>abstract.
     let d2 = add_heading ''Participants'' 1 (add_paragraph abstract d1) in
     and_then (getitem row ''Name of the participants'') (\<lambda>participants.
     let d3 = add_heading ''Emails'' 1 (add_paragraph participants d2) in
     and_then (getitem row ''Contact information of the participants'') (\<lambda>emails.
     Inr (add_paragraph emails d3)))))"

section \<open>Processing one row\<close>

definition proposal_column :: string where
  "proposal_column = ''What proposal are you planning to submit''"

definition individual_answer :: string where
  "individual_answer =
     ''A proposal for an individual paper, film screening or other presentationtation''"

definition panel_answer :: string where
  "panel_answer = ''A proposal for a paper panel''"

definition roundtable_answer :: string where
  "roundtable_answer = ''A proposal for a routable''"

text \<open>
  The \<^verbatim>\<open>if\<close>/\<^verbatim>\<open>elif\<close>/\<^verbatim>\<open>elif\<close> chain of \<^verbatim>\<open>parse_row\<close> (lines 217 to 237). A
  branch binds the three locals \<^verbatim>\<open>parent_folder_id\<close>, \<^verbatim>\<open>proposal_type\<close> and
  \<^verbatim>\<open>document\<close>; the chain has no \<^verbatim>\<open>else\<close>, so when no comparison holds the three
  names stay unbound, which is the result \<open>None\<close>. Reading the column or building the
  document can raise \<^verbatim>\<open>KeyError\<close>.
\<close>

definition parse_row_branches ::
  "config \<Rightarrow> int \<Rightarrow> row \<Rightarrow> error + (string option \<times> string \<times> document) option" where
  "parse_row_branches cfg idx row =
     and_then (getitem row proposal_column) (\<lambda>answer.
       if answer = individual_answer then
         and_then (create_individual_proposal_doc idx row) (\<lambda>document.
           Inr (Some (individual (folder_ids cfg), ''individual'', document)))
       else if answer = panel_answer then
         and_then (create_panel_proposal_doc idx row) (\<lambda>document.
           Inr (Some (panel (folder_ids cfg), ''panel'', document)))
       else if answer = roundtable_answer then
         and_then (create_roundtable_proposal_doc idx row) (\<lambda>document.
           Inr (Some (roundtable (folder_ids cfg), ''roundtable'', document)))
       else Inr None)"

definition gdoc_name :: "string \<Rightarrow> int \<Rightarrow> string \<Rightarrow> string" where
  "gdoc_name fullname idx proposal_type =
     fullname @ '' (id-'' @ str_int idx @ '' type-'' @ proposal_type @ '')''"

definition upload_request :: "string \<Rightarrow> string option \<Rightarrow> document \<Rightarrow> request" where
  "upload_request gname parent_folder_id d =
     \<lparr>body = \<lparr>name = gname,
              mimeType = ''application/vnd.google-apps.document'',
              parents = [parent_folder_id]\<rparr>,
      media_body = d,
      media_mimetype =
        ''application/vnd.openxmlformats-officedocument.wordprocessingml.document'',
      fields_arg = ''id''\<rparr>"

text \<open>
  \<^verbatim>\<open>parse_row\<close>: the full name is read first; then the chain; then
  \<^verbatim>\<open>document.save\<close>, the first use of \<^verbatim>\<open>document\<close>, which raises
  \<^verbatim>\<open>UnboundLocalError\<close> when no branch bound it; then the upload, whose
  \<^verbatim>\<open>HttpError\<close> is caught and logged. No other exception is caught. The temporary
  file is released on every path and is not part of the model.
\<close>

definition parse_row :: "config \<Rightarrow> gservice \<Rightarrow> int \<Rightarrow> row \<Rightarrow> (error + unit) \<times> event list" where
  "parse_row cfg gs idx row =
     (case and_then (getitem row ''First name'') (\<lambda>first_name.
           and_then (getitem row ''Last name'') (\<lambda>last_name.
           Inr (first_name @ '' '' @ last_name))) of
        Inl e \<Rightarrow> (Inl e, [ParseRow idx])
      | Inr fullname \<Rightarrow>
          (case parse_row_branches cfg idx row of
             Inl e \<Rightarrow> (Inl e, [ParseRow idx])
           | Inr None \<Rightarrow> (Inl (UnboundLocalError ''document''), [ParseRow idx])
           | Inr (Some (parent_folder_id, proposal_type, d)) \<Rightarrow>
               (let gname = gdoc_name fullname idx proposal_type;
                    req = upload_request gname parent_folder_id d
                in (case gs req of
                      Created \<Rightarrow>
                        (Inr (), [ParseRow idx, LogUploading gname parent_folder_id,
                                  FilesCreate req Created])
                    | HttpError \<Rightarrow>
                        (Inr (), [ParseRow idx, LogUploading gname parent_folder_id,
                                  FilesCreate req HttpError, LogHttpError])))))"

section \<open>The run\<close>

text \<open>
  The table read by \<^verbatim>\<open>pd.read_csv\<close> is a list of rows labelled \<open>0, 1, ...\<close>.
  \<^verbatim>\<open>df.iloc[start:]\<close> is a Python slice: a negative \<open>start\<close> counts from the end.
\<close>

type_synonym dataframe = "(int \<times> row) list"

definition read_csv :: "row list \<Rightarrow> dataframe" where
  "read_csv table = zip (map int [0..<length table]) table"

definition iloc_from :: "int \<Rightarrow> dataframe \<Rightarrow> dataframe" where
  "iloc_from start df =
     (if start < 0 then drop (nat (max 0 (int (length df) + start))) df
      else drop (nat start) df)"

text \<open>
  The \<^verbatim>\<open>for\<close> loop of \<^verbatim>\<open>parse\<close> (lines 127 to 131), carrying
  \<^verbatim>\<open>last_processed_row\<close>. An exception of \<^verbatim>\<open>parse_row\<close> leaves the loop: the loop
  has no handler.
\<close>

fun parse_loop ::
  "config \<Rightarrow> gservice \<Rightarrow> dataframe \<Rightarrow> int \<Rightarrow> (error + int) \<times> event list" where
  "parse_loop cfg gs [] last_processed_row = (Inr last_processed_row, [])"
| "parse_loop cfg gs ((idx, row) # rest) last_processed_row =
     (case parse_row cfg gs idx row of
        (Inl e, evs) \<Rightarrow> (Inl e, evs)
      | (Inr u, evs) \<Rightarrow>
          (case parse_loop cfg gs rest idx of
             (r, evs') \<Rightarrow> (r, evs @ [Sleep 3] @ evs')))"

text \<open>
  \<^verbatim>\<open>parse\<close>, on the table already fetched. \<^verbatim>\<open>last_processed_row + 1\<close> raises
  \<^verbatim>\<open>TypeError\<close> when the checkpoint is \<^verbatim>\<open>None\<close>. The checkpoint is written after
  the loop, on the one path that reaches the last line. The debug line that lists the
  columns of the table is not part of the trace.
\<close>

definition parse ::
  "config \<Rightarrow> gservice \<Rightarrow> row list \<Rightarrow> firestore \<Rightarrow> (error + unit) \<times> firestore \<times> event list" where
  "parse cfg gs table db =
     (let df = read_csv table in
      case get_last_processed_row cfg db of
        (Inl e, evs0) \<Rightarrow> (Inl e, db, evs0)
      | (Inr None, evs0) \<Rightarrow> (Inl TypeError, db, evs0)
      | (Inr (Some last_processed_row), evs0) \<Rightarrow>
          (let to_be_processed = iloc_from (last_processed_row + 1) df;
               evs1 = evs0 @ [LogFound (length to_be_processed)]
           in case parse_loop cfg gs to_be_processed last_processed_row of
                (Inl e, evs2) \<Rightarrow> (Inl e, db, evs1 @ evs2)
              | (Inr last_row, evs2) \<Rightarrow>
                  (case update_last_processed_row cfg last_row db of
                     (r, db', evs3) \<Rightarrow> (r, db', evs1 @ evs2 @ evs3))))"

text \<open>Readings of a trace.\<close>

fun visited :: "event list \<Rightarrow> int list" where
  "visited [] = []"
| "visited (ParseRow i # evs) = i # visited evs"
| "visited (e # evs) = visited evs"

fun db_sets :: "event list \<Rightarrow> int list" where
  "db_sets [] = []"
| "db_sets (DbSet a v # evs) = v # db_sets evs"
| "db_sets (e # evs) = db_sets evs"

fun uploads :: "event list \<Rightarrow> (request \<times> response) list" where
  "uploads [] = []"
| "uploads (FilesCreate q r # evs) = (q, r) # uploads evs"
| "uploads (e # evs) = uploads evs"

section \<open>Notions used to state the properties\<close>

text \<open>
  The lines that the handler of \<^verbatim>\<open>HttpError\<close> adds to the log, by the answer of Drive.
\<close>

definition http_error_log :: "response \<Rightarrow> event list" where
  "http_error_log r = (case r of Created \<Rightarrow> [] | HttpError \<Rightarrow> [LogHttpError])"

text \<open>
  The position at which the slice \<^verbatim>\<open>[start:]\<close> of a sequence of \<open>n\<close> elements begins.
\<close>

definition slice_start :: "int \<Rightarrow> nat \<Rightarrow> nat" where
  "slice_start start n = (if start < 0 then nat (max 0 (int n + start)) else nat start)"

text \<open>
  The address of the Firestore document that holds the checkpoint, as the configuration
  names it.
\<close>

definition checkpoint_address :: "config \<Rightarrow> address" where
  "checkpoint_address cfg =
     (case firebase (working_storage cfg) of
        None \<Rightarrow> (None, None)
      | Some fb \<Rightarrow> (collection_name fb, document_name fb))"

text \<open>
  The columns each builder reads, in the order of the reads: those of
  \<^verbatim>\<open>create_base_doc\<close>, then those of the builder of the proposal type.
\<close>

definition base_columns :: "string list" where
  "base_columns = [''First name'', ''Last name'', ''Email address'', ''Timestamp'', ''Affiliation'']"

definition required_columns :: "string \<Rightarrow> string list" where
  "required_columns proposal_type =
     base_columns @
     (if proposal_type = ''individual'' then [''Abstract'']
      else if proposal_type = ''panel'' then
        [''Topic of the panel'', ''Names of the panelists'',
         ''Contact information of the panelists'', ''Abstracts'']
      else if proposal_type = ''roundtable'' then
        [''Abstract.1'', ''Name of the participants'',
         ''Contact information of the participants'']
      else [])"

text \<open>
  Example inputs: an environment that selects the storage type \<^verbatim>\<open>"firebase"\<close>, the
  database with a stored checkpoint, a complete form response, the same response in a
  table that lacks one column, and Drive services that always create the file or always
  answer with \<^verbatim>\<open>HttpError\<close>.
\<close>

definition example_env :: environ where
  "example_env = map_of
     [(''WORKING_STORAGE_TYPE'', ''firebase''),
      (''WORKING_COLLECTION_NAME'', ''cots''),
      (''WORKING_DOCUMENT_NAME'', ''state''),
      (''INDIVIDUAL_PROPOSAL_FOLDER_ID'', ''folder-i''),
      (''PANEL_PROPOSAL_FOLDER_ID'', ''folder-p''),
      (''ROUNDTABLE_PROPOSAL_FOLDER_ID'', ''folder-r'')]"

definition example_config :: config where
  "example_config = load_config example_env"

definition stored :: "int \<Rightarrow> firestore" where
  "stored c = [(Some ''cots'', Some ''state'') \<mapsto> [''last_processed_row'' \<mapsto> c]]"

definition form_row :: "string \<Rightarrow> string \<Rightarrow> string \<Rightarrow> row" where
  "form_row first_name last_name answer = map_of
     [(''Timestamp'', ''2021/03/01 10:00:00''),
      (''Email address'', ''author@example.org''),
      (''First name'', first_name),
      (''Last name'', last_name),
      (''Affiliation'', ''Analytical Society''),
      (''What proposal are you planning to submit'', answer),
      (''Abstract'', ''On engines''),
      (''Topic of the panel'', ''Engines''),
      (''Names of the panelists'', ''A and B''),
      (''Contact information of the panelists'', ''a@example.org''),
      (''Abstracts'', ''Two abstracts''),
      (''Abstract.1'', ''A roundtable''),
      (''Name of the participants'', ''C and D''),
      (''Contact information of the participants'', ''c@example.org'')]"

definition drop_column :: "string \<Rightarrow> row \<Rightarrow> row" where
  "drop_column k row = row(k := None)"

definition always_created :: gservice where
  "always_created q = Created"

definition always_http_error :: gservice where
  "always_http_error q = HttpError"

text \<open>
  The names of the documents sent to Drive, read from a trace.
\<close>

definition uploaded_names :: "event list \<Rightarrow> string list" where
  "uploaded_names evs = map (\<lambda>(q, r). name (body q)) (uploads evs)"

section \<open>Auxiliary facts\<close>

subsection \<open>Rows and builders\<close>

text \<open>
  Sequencing stops at the first exception; a subscript succeeds exactly on the columns
  the row has.
\<close>

lemma and_then_Inl [simp]: "and_then (Inl e) f = Inl e" by (simp add: and_then_def)
lemma and_then_Inr [simp]: "and_then (Inr x) f = f x" by (simp add: and_then_def)

lemma and_then_eq_Inr: "and_then r f = Inr y \<longleftrightarrow> (\<exists>x. r = Inr x \<and> f x = Inr y)"
  by (cases r) auto

lemma getitem_Some [simp]: "row k = Some v \<Longrightarrow> getitem row k = Inr v"
  by (simp add: getitem_def)

lemma getitem_None [simp]: "row k = None \<Longrightarrow> getitem row k = Inl (KeyError k)"
  by (simp add: getitem_def)

lemma getitem_eq_Inr: "getitem row k = Inr v \<longleftrightarrow> row k = Some v"
  by (simp add: getitem_def split: option.splits)

lemma create_base_doc_Inr:
  "create_base_doc idx row h = Inr d \<Longrightarrow> \<exists>f l. row ''First name'' = Some f \<and> row ''Last name'' = Some l"
  by (auto simp: create_base_doc_def and_then_eq_Inr getitem_eq_Inr)

lemma branches_Some:
  assumes "parse_row_branches cfg idx row = Inr (Some (parent, ptype, d))"
  shows "\<exists>f l. row ''First name'' = Some f \<and> row ''Last name'' = Some l"
  using assms
  by (auto simp: parse_row_branches_def and_then_eq_Inr create_individual_proposal_doc_def
      create_panel_proposal_doc_def create_roundtable_proposal_doc_def Let_def
      split: if_splits dest: create_base_doc_Inr)

lemma parse_row_built:
  assumes "row ''First name'' = Some f" "row ''Last name'' = Some l"
    and "parse_row_branches cfg idx row = Inr (Some (parent, ptype, d))"
  shows "parse_row cfg gs idx row =
     (let gname = gdoc_name (f @ '' '' @ l) idx ptype; req = upload_request gname parent d
      in (Inr (), [ParseRow idx, LogUploading gname parent, FilesCreate req (gs req)]
                   @ http_error_log (gs req)))"
  using assms
  by (cases "gs (upload_request (gdoc_name (f @ '' '' @ l) idx ptype) parent d)")
     (simp_all add: parse_row_def Let_def http_error_log_def)

subsection \<open>The loop\<close>

text \<open>
  Readings of a trace distribute over concatenation. A call of \<^verbatim>\<open>parse_row\<close> either
  raises, having done nothing observable, or returns after one request to Drive.
\<close>

lemma visited_append [simp]: "visited (xs @ ys) = visited xs @ visited ys"
  by (induction xs rule: visited.induct) simp_all

lemma db_sets_append [simp]: "db_sets (xs @ ys) = db_sets xs @ db_sets ys"
  by (induction xs rule: db_sets.induct) simp_all

lemma uploads_append [simp]: "uploads (xs @ ys) = uploads xs @ uploads ys"
  by (induction xs rule: uploads.induct) simp_all

lemma parse_row_cases:
  obtains (raised) e where "parse_row cfg gs idx row = (Inl e, [ParseRow idx])"
  | (returned) f l parent ptype d where
      "row ''First name'' = Some f" "row ''Last name'' = Some l"
      "parse_row_branches cfg idx row = Inr (Some (parent, ptype, d))"
      "parse_row cfg gs idx row =
         (Inr (), [ParseRow idx, LogUploading (gdoc_name (f @ '' '' @ l) idx ptype) parent,
                   FilesCreate (upload_request (gdoc_name (f @ '' '' @ l) idx ptype) parent d)
                     (gs (upload_request (gdoc_name (f @ '' '' @ l) idx ptype) parent d))]
                  @ http_error_log (gs (upload_request (gdoc_name (f @ '' '' @ l) idx ptype) parent d)))"
proof (cases "parse_row_branches cfg idx row")
  case (Inl e)
  then have "\<exists>e'. parse_row cfg gs idx row = (Inl e', [ParseRow idx])"
    by (simp add: parse_row_def split: sum.splits)
  then show ?thesis using raised by blast
next
  case (Inr v)
  show ?thesis
  proof (cases v)
    case None
    with Inr have "\<exists>e'. parse_row cfg gs idx row = (Inl e', [ParseRow idx])"
      by (simp add: parse_row_def split: sum.splits)
    then show ?thesis using raised by blast
  next
    case (Some t)
    obtain parent ptype d where t: "t = (parent, ptype, d)" by (cases t)
    from Inr Some t have b: "parse_row_branches cfg idx row = Inr (Some (parent, ptype, d))" by simp
    from branches_Some[OF b] obtain f l where
      fl: "row ''First name'' = Some f" "row ''Last name'' = Some l" by blast
    show ?thesis
      using returned[OF fl b] parse_row_built[OF fl b, of gs] by (simp add: Let_def)
  qed
qed

lemma visited_parse_row: "parse_row cfg gs idx row = (r, evs) \<Longrightarrow> visited evs = [idx]"
  by (rule parse_row_cases[where cfg=cfg and gs=gs and idx=idx and row=row])
     (auto simp: http_error_log_def split: response.splits)

lemma db_sets_parse_row: "parse_row cfg gs idx row = (r, evs) \<Longrightarrow> db_sets evs = []"
  by (rule parse_row_cases[where cfg=cfg and gs=gs and idx=idx and row=row])
     (auto simp: http_error_log_def split: response.splits)


lemma parse_loop_next:
  "parse_row cfg gs idx row = (Inr u, evs) \<Longrightarrow>
     parse_loop cfg gs ((idx, row) # rest) c =
       (fst (parse_loop cfg gs rest idx), evs @ [Sleep 3] @ snd (parse_loop cfg gs rest idx))"
  by (simp split: prod.splits)

lemma db_sets_parse_loop: "parse_loop cfg gs df c = (r, evs) \<Longrightarrow> db_sets evs = []"
proof (induction df arbitrary: c r evs)
  case Nil
  then show ?case by simp
next
  case (Cons p df)
  obtain idx row where p: "p = (idx, row)" by (cases p)
  obtain r0 evs0 where r0: "parse_row cfg gs idx row = (r0, evs0)" by (cases "parse_row cfg gs idx row")
  note s0 = db_sets_parse_row[OF r0]
  show ?case
  proof (cases r0)
    case (Inl e)
    with Cons.prems r0 s0 show ?thesis unfolding p by simp
  next
    case (Inr u)
    obtain r1 evs1 where r1: "parse_loop cfg gs df idx = (r1, evs1)"
      by (cases "parse_loop cfg gs df idx")
    from Cons.IH[OF r1] Cons.prems r0 s0 r1 Inr show ?thesis unfolding p by auto
  qed
qed

lemma parse_loop_returned:
  "parse_loop cfg gs df c = (Inr k, evs) \<Longrightarrow>
     visited evs = map fst df \<and> k = last (c # map fst df)"
proof (induction df arbitrary: c evs)
  case Nil
  then show ?case by simp
next
  case (Cons p df)
  obtain idx row where p: "p = (idx, row)" by (cases p)
  obtain r0 evs0 where r0: "parse_row cfg gs idx row = (r0, evs0)" by (cases "parse_row cfg gs idx row")
  note v0 = visited_parse_row[OF r0]
  show ?case
  proof (cases r0)
    case (Inl e)
    with Cons.prems r0 show ?thesis unfolding p by simp
  next
    case (Inr u)
    obtain r1 evs1 where r1: "parse_loop cfg gs df idx = (r1, evs1)"
      by (cases "parse_loop cfg gs df idx")
    with Cons.prems r0 Inr have e: "r1 = Inr k" "evs = evs0 @ [Sleep 3] @ evs1"
      unfolding p by auto
    from Cons.IH[OF r1[unfolded e(1)]] v0 e show ?thesis unfolding p by auto
  qed
qed

lemma parse_loop_visited_take:
  "parse_loop cfg gs df c = (r, evs) \<Longrightarrow> \<exists>n. visited evs = take n (map fst df)"
proof (induction df arbitrary: c r evs)
  case Nil
  then show ?case by simp
next
  case (Cons p df)
  obtain idx row where p: "p = (idx, row)" by (cases p)
  obtain r0 evs0 where r0: "parse_row cfg gs idx row = (r0, evs0)" by (cases "parse_row cfg gs idx row")
  note v0 = visited_parse_row[OF r0]
  show ?case
  proof (cases r0)
    case (Inl e)
    with Cons.prems r0 v0 have "visited evs = take 1 (map fst (p # df))"
      unfolding p by auto
    then show ?thesis by blast
  next
    case (Inr u)
    obtain r1 evs1 where r1: "parse_loop cfg gs df idx = (r1, evs1)"
      by (cases "parse_loop cfg gs df idx")
    from Cons.IH[OF r1] obtain n where n: "visited evs1 = take n (map fst df)" by blast
    from Cons.prems r0 Inr r1 v0 n have "visited evs = take (Suc n) (map fst (p # df))"
      unfolding p by auto
    then show ?thesis by blast
  qed
qed

lemma parse_loop_all_returned:
  "\<forall>(i, r) \<in> set df. fst (parse_row cfg gs i r) = Inr () \<Longrightarrow>
     fst (parse_loop cfg gs df c) = Inr (last (c # map fst df))"
proof (induction df arbitrary: c)
  case Nil
  show ?case by simp
next
  case (Cons p df)
  obtain idx row where p: "p = (idx, row)" by (cases p)
  from Cons.prems have h: "fst (parse_row cfg gs idx row) = Inr ()"
    and t: "\<forall>(i, r) \<in> set df. fst (parse_row cfg gs i r) = Inr ()"
    unfolding p by auto
  from h obtain evs0 where r0: "parse_row cfg gs idx row = (Inr (), evs0)"
    by (cases "parse_row cfg gs idx row") auto
  from Cons.IH[OF t, of idx] show ?case
    unfolding p by (simp add: parse_loop_next[OF r0] del: parse_loop.simps)
qed

lemma map_fst_read_csv: "map fst (read_csv table) = map int [0..<length table]"
  by (simp add: read_csv_def)

lemma length_read_csv [simp]: "length (read_csv table) = length table"
  by (simp add: read_csv_def)

lemma map_fst_iloc_from:
  "map fst (iloc_from start (read_csv table)) = map int [slice_start start (length table)..<length table]"
  by (simp add: iloc_from_def slice_start_def read_csv_def drop_map drop_zip)

lemma map_int_upt: "map int [m..<n] = [int m..int n - 1]"
proof (induction n)
  case 0
  show ?case by simp
next
  case (Suc n)
  then show ?case
    by (cases "m \<le> n") (simp_all add: upto_rec2 add.commute)
qed

subsection \<open>The run\<close>

text \<open>
  When the checkpoint is read as an integer, the storage type is \<^verbatim>\<open>"firebase"\<close> and the
  write at the end of the run cannot fail. The run is then determined by the loop.
\<close>

lemma get_last_processed_row_Some:
  assumes "get_last_processed_row cfg db = (Inr (Some c), evs0)"
  shows "storage_type (working_storage cfg) = ''firebase''"
    and "\<exists>fb. firebase (working_storage cfg) = Some fb"
    and "\<exists>doc. db (checkpoint_address cfg) = Some doc \<and> doc ''last_processed_row'' = Some c"
    and "update_last_processed_row cfg k db =
           (Inr (), db(checkpoint_address cfg \<mapsto> [''last_processed_row'' \<mapsto> k]),
            [DbSet (checkpoint_address cfg) k])"
    and "db_sets evs0 = []" and "visited evs0 = []" and "uploads evs0 = []"
  using assms
  by (auto simp: get_last_processed_row_def update_last_processed_row_def checkpoint_address_def
      split: if_splits option.splits)

lemma get_last_processed_row_events:
  "get_last_processed_row cfg db = (r, evs0) \<Longrightarrow> db_sets evs0 = [] \<and> visited evs0 = []"
  by (auto simp: get_last_processed_row_def split: if_splits option.splits)

lemma parse_raised_early:
  "get_last_processed_row cfg db = (Inl e, evs0) \<Longrightarrow> parse cfg gs table db = (Inl e, db, evs0)"
  by (simp add: parse_def)

lemma parse_none:
  "get_last_processed_row cfg db = (Inr None, evs0) \<Longrightarrow>
     parse cfg gs table db = (Inl TypeError, db, evs0)"
  by (simp add: parse_def)

lemma parse_loop_raised_run:
  assumes "get_last_processed_row cfg db = (Inr (Some c), evs0)"
    and "parse_loop cfg gs (iloc_from (c + 1) (read_csv table)) c = (Inl e, evs2)"
  shows "parse cfg gs table db =
     (Inl e, db, evs0 @ [LogFound (length (iloc_from (c + 1) (read_csv table)))] @ evs2)"
  using assms by (simp add: parse_def Let_def)

lemma parse_completed_run:
  assumes "get_last_processed_row cfg db = (Inr (Some c), evs0)"
    and "parse_loop cfg gs (iloc_from (c + 1) (read_csv table)) c = (Inr k, evs2)"
  shows "parse cfg gs table db =
     (Inr (), db(checkpoint_address cfg \<mapsto> [''last_processed_row'' \<mapsto> k]),
      evs0 @ [LogFound (length (iloc_from (c + 1) (read_csv table)))] @ evs2
        @ [DbSet (checkpoint_address cfg) k])"
  using assms get_last_processed_row_Some(4)[OF assms(1), of k]
  by (simp add: parse_def Let_def)

lemma slice_indices_above:
  "i \<in> set (map fst (iloc_from (c + 1) (read_csv table))) \<Longrightarrow> c < i"
  by (auto simp: map_fst_iloc_from slice_start_def split: if_splits)

lemma sorted_le_last: "sorted (xs :: int list) \<Longrightarrow> y \<in> set xs \<Longrightarrow> y \<le> last xs"
  by (induction xs) (auto split: if_splits)

lemma last_is_Max:
  assumes "sorted (xs :: int list)" "\<forall>i \<in> set xs. c < i"
  shows "last (c # xs) = Max (set (c # xs))"
proof -
  have s: "sorted (c # xs)" using assms by (auto simp: less_imp_le)
  have "last (c # xs) \<in> set (c # xs)" by (rule last_in_set) simp
  moreover have "\<And>y. y \<in> set (c # xs) \<Longrightarrow> y \<le> last (c # xs)"
    using sorted_le_last[OF s] by blast
  ultimately show ?thesis by (intro Max_eqI[symmetric]) simp_all
qed

lemma parse_row_returned_iff:
  "fst (parse_row cfg gs idx row) = Inr () \<longleftrightarrow> (\<exists>t. parse_row_branches cfg idx row = Inr (Some t))"
proof
  assume "fst (parse_row cfg gs idx row) = Inr ()"
  then show "\<exists>t. parse_row_branches cfg idx row = Inr (Some t)"
    by (rule_tac parse_row_cases[where cfg=cfg and gs=gs and idx=idx and row=row]) auto
next
  assume "\<exists>t. parse_row_branches cfg idx row = Inr (Some t)"
  then obtain parent ptype d where b: "parse_row_branches cfg idx row = Inr (Some (parent, ptype, d))"
    by (metis prod_cases3)
  from branches_Some[OF b] obtain f l where
    fl: "row ''First name'' = Some f" "row ''Last name'' = Some l" by blast
  show "fst (parse_row cfg gs idx row) = Inr ()"
    by (simp add: parse_row_built[OF fl b] Let_def)
qed

lemma parse_row_http_error:
  assumes "FilesCreate q HttpError \<in> set (snd (parse_row cfg gs idx row))"
  shows "\<exists>gname parent.
     parse_row cfg gs idx row =
       (Inr (), [ParseRow idx, LogUploading gname parent, FilesCreate q HttpError, LogHttpError])"
  using assms
  by (rule_tac parse_row_cases[where cfg=cfg and gs=gs and idx=idx and row=row])
     (auto simp: http_error_log_def split: response.splits)

lemma parse_loop_contains:
  assumes "(j, rowj) \<in> set df"
    and "\<forall>(i, r) \<in> set df. fst (parse_row cfg gs i r) = Inr ()"
  shows "\<exists>pre post. snd (parse_loop cfg gs df c) = pre @ snd (parse_row cfg gs j rowj) @ post"
  using assms
proof (induction df arbitrary: c)
  case Nil
  then show ?case by simp
next
  case (Cons p df)
  obtain idx row where p: "p = (idx, row)" by (cases p)
  from Cons.prems(2) have h: "fst (parse_row cfg gs idx row) = Inr ()"
    and t: "\<forall>(i, r) \<in> set df. fst (parse_row cfg gs i r) = Inr ()"
    unfolding p by auto
  from h obtain evs0 where r0: "parse_row cfg gs idx row = (Inr (), evs0)"
    by (cases "parse_row cfg gs idx row") auto
  note n = parse_loop_next[OF r0, of df c]
  show ?case
  proof (cases "(j, rowj) = (idx, row)")
    case True
    then have "snd (parse_loop cfg gs (p # df) c) =
        [] @ snd (parse_row cfg gs j rowj) @ ([Sleep 3] @ snd (parse_loop cfg gs df idx))"
      unfolding p n using r0 by simp
    then show ?thesis by blast
  next
    case False
    with Cons.prems(1) have "(j, rowj) \<in> set df" unfolding p by auto
    from Cons.IH[OF this t, of idx] obtain pre post where
      "snd (parse_loop cfg gs df idx) = pre @ snd (parse_row cfg gs j rowj) @ post" by blast
    then have "snd (parse_loop cfg gs (p # df) c) =
        (evs0 @ [Sleep 3] @ pre) @ snd (parse_row cfg gs j rowj) @ post"
      unfolding p n by simp
    then show ?thesis by blast
  qed
qed

lemma parse_loop_first_visit:
  "parse_loop cfg gs ((idx, row) # rest) c = (r, evs) \<Longrightarrow> \<exists>n. visited evs = idx # take n (map fst rest)"
proof -
  assume a: "parse_loop cfg gs ((idx, row) # rest) c = (r, evs)"
  obtain r0 evs0 where r0: "parse_row cfg gs idx row = (r0, evs0)" by (cases "parse_row cfg gs idx row")
  note v0 = visited_parse_row[OF r0]
  show ?thesis
  proof (cases r0)
    case (Inl e)
    with a r0 v0 have "visited evs = idx # take 0 (map fst rest)" by auto
    then show ?thesis by blast
  next
    case (Inr u)
    obtain r1 evs1 where r1: "parse_loop cfg gs rest idx = (r1, evs1)"
      by (cases "parse_loop cfg gs rest idx")
    from parse_loop_visited_take[OF r1] obtain n where "visited evs1 = take n (map fst rest)" by blast
    with a r0 Inr r1 v0 have "visited evs = idx # take n (map fst rest)" by auto
    then show ?thesis by blast
  qed
qed

lemma to_be_processed_indices:
  assumes "- 1 \<le> c"
  shows "map fst (iloc_from (c + 1) (read_csv table)) = [c + 1..int (length table) - 1]"
  using assms by (simp add: map_fst_iloc_from slice_start_def map_int_upt)

subsection \<open>The example inputs\<close>

text \<open>
  The example configuration, database and rows, evaluated.
\<close>

lemma example_config_storage:
  "storage_type (working_storage example_config) = ''firebase''"
  "firebase (working_storage example_config) =
     Some \<lparr>cred = None, project_id = None, collection_name = Some ''cots'',
           document_name = Some ''state''\<rparr>"
  "folder_ids example_config =
     \<lparr>individual = Some ''folder-i'', panel = Some ''folder-p'', roundtable = Some ''folder-r''\<rparr>"
  by (simp_all add: example_config_def load_config_def load_working_storage_def example_env_def
      getenv_default_def)

lemma example_checkpoint_address: "checkpoint_address example_config = (Some ''cots'', Some ''state'')"
  by (simp add: checkpoint_address_def example_config_storage)

lemma get_stored: "get_last_processed_row example_config (stored c) =
    (Inr (Some c), [LogGetting (Some ''cots'') (Some ''state'')])"
  by (simp add: get_last_processed_row_def example_config_storage stored_def)

lemma form_row_columns:
  "form_row f l a ''Timestamp'' = Some ''2021/03/01 10:00:00''"
  "form_row f l a ''Email address'' = Some ''author@example.org''"
  "form_row f l a ''First name'' = Some f"
  "form_row f l a ''Last name'' = Some l"
  "form_row f l a ''Affiliation'' = Some ''Analytical Society''"
  "form_row f l a proposal_column = Some a"
  "form_row f l a ''Abstract'' = Some ''On engines''"
  "form_row f l a ''Topic of the panel'' = Some ''Engines''"
  "form_row f l a ''Names of the panelists'' = Some ''A and B''"
  "form_row f l a ''Contact information of the panelists'' = Some ''a@example.org''"
  "form_row f l a ''Abstracts'' = Some ''Two abstracts''"
  "form_row f l a ''Abstract.1'' = Some ''A roundtable''"
  "form_row f l a ''Name of the participants'' = Some ''C and D''"
  "form_row f l a ''Contact information of the participants'' = Some ''c@example.org''"
  by (simp_all add: form_row_def proposal_column_def)

lemma answers_distinct:
  "individual_answer \<noteq> panel_answer" "individual_answer \<noteq> roundtable_answer"
  "panel_answer \<noteq> roundtable_answer" "panel_answer \<noteq> individual_answer"
  "roundtable_answer \<noteq> individual_answer" "roundtable_answer \<noteq> panel_answer"
  by (simp_all add: individual_answer_def panel_answer_def roundtable_answer_def)

subsection \<open>Required columns\<close>

text \<open>
  A builder returns a document exactly when the row has every column it reads, and raises
  \<^verbatim>\<open>KeyError\<close> on a missing one otherwise.
\<close>

lemma create_base_doc_cases:
  "(\<exists>d. create_base_doc idx row h = Inr d \<and> (\<forall>k \<in> set base_columns. row k \<noteq> None)) \<or>
   (\<exists>k \<in> set base_columns. row k = None \<and> create_base_doc idx row h = Inl (KeyError k))"
  by (auto simp: create_base_doc_def base_columns_def getitem_def Let_def split: option.splits)

lemma individual_cases:
  "(\<exists>d. create_individual_proposal_doc idx row = Inr d \<and>
        (\<forall>k \<in> set (required_columns ''individual''). row k \<noteq> None)) \<or>
   (\<exists>k \<in> set (required_columns ''individual''). row k = None \<and>
        create_individual_proposal_doc idx row = Inl (KeyError k))"
  using create_base_doc_cases[of idx row "''Individual/Film/Other''"]
  by (auto simp: create_individual_proposal_doc_def required_columns_def getitem_def Let_def
      split: option.splits)

lemma panel_cases:
  "(\<exists>d. create_panel_proposal_doc idx row = Inr d \<and>
        (\<forall>k \<in> set (required_columns ''panel''). row k \<noteq> None)) \<or>
   (\<exists>k \<in> set (required_columns ''panel''). row k = None \<and>
        create_panel_proposal_doc idx row = Inl (KeyError k))"
  using create_base_doc_cases[of idx row "''Panel''"]
  by (auto simp: create_panel_proposal_doc_def required_columns_def getitem_def Let_def
      split: option.splits)

lemma roundtable_cases:
  "(\<exists>d. create_roundtable_proposal_doc idx row = Inr d \<and>
        (\<forall>k \<in> set (required_columns ''roundtable''). row k \<noteq> None)) \<or>
   (\<exists>k \<in> set (required_columns ''roundtable''). row k = None \<and>
        create_roundtable_proposal_doc idx row = Inl (KeyError k))"
  using create_base_doc_cases[of idx row "''Roundtable''"]
  by (auto simp: create_roundtable_proposal_doc_def required_columns_def getitem_def Let_def
      split: option.splits)

lemma branches_individual:
  "row proposal_column = Some individual_answer \<Longrightarrow>
     parse_row_branches cfg idx row =
       and_then (create_individual_proposal_doc idx row)
         (\<lambda>d. Inr (Some (individual (folder_ids cfg), ''individual'', d)))"
  by (simp add: parse_row_branches_def)

lemma branches_panel:
  "row proposal_column = Some panel_answer \<Longrightarrow>
     parse_row_branches cfg idx row =
       and_then (create_panel_proposal_doc idx row)
         (\<lambda>d. Inr (Some (panel (folder_ids cfg), ''panel'', d)))"
  by (simp add: parse_row_branches_def answers_distinct)

lemma branches_roundtable:
  "row proposal_column = Some roundtable_answer \<Longrightarrow>
     parse_row_branches cfg idx row =
       and_then (create_roundtable_proposal_doc idx row)
         (\<lambda>d. Inr (Some (roundtable (folder_ids cfg), ''roundtable'', d)))"
  by (simp add: parse_row_branches_def answers_distinct)

lemma branches_unknown:
  "row proposal_column = Some answer \<Longrightarrow> answer \<noteq> individual_answer \<Longrightarrow>
   answer \<noteq> panel_answer \<Longrightarrow> answer \<noteq> roundtable_answer \<Longrightarrow>
     parse_row_branches cfg idx row = Inr None"
  by (simp add: parse_row_branches_def)


lemma parse_row_unbound:
  "row ''First name'' = Some f \<Longrightarrow> row ''Last name'' = Some l \<Longrightarrow>
   parse_row_branches cfg idx row = Inr None \<Longrightarrow>
     parse_row cfg gs idx row = (Inl (UnboundLocalError ''document''), [ParseRow idx])"
  by (simp add: parse_row_def)





lemma form_row_answer:
  "form_row f l a ''What proposal are you planning to submit'' = Some a"
  using form_row_columns(6)[of f l a] by (simp add: proposal_column_def)

lemma required_columns_simps:
  "required_columns ''individual'' = base_columns @ [''Abstract'']"
  "required_columns ''panel'' = base_columns @ [''Topic of the panel'', ''Names of the panelists'',
         ''Contact information of the panelists'', ''Abstracts'']"
  "required_columns ''roundtable'' = base_columns @ [''Abstract.1'', ''Name of the participants'',
         ''Contact information of the participants'']"
  by (simp_all add: required_columns_def)

lemma form_row_complete:
  "k \<in> set (required_columns ''individual'') \<Longrightarrow> \<exists>v. form_row f l a k = Some v"
  "k \<in> set (required_columns ''panel'') \<Longrightarrow> \<exists>v. form_row f l a k = Some v"
  "k \<in> set (required_columns ''roundtable'') \<Longrightarrow> \<exists>v. form_row f l a k = Some v"
  unfolding required_columns_simps base_columns_def
  by (auto simp: form_row_columns)

lemma drop_column_apply:
  "drop_column k row k = None" "k' \<noteq> k \<Longrightarrow> drop_column k row k' = row k'"
  by (simp_all add: drop_column_def)

lemma form_row_individual:
  "\<exists>d. parse_row_branches cfg idx (form_row f l individual_answer) =
         Inr (Some (individual (folder_ids cfg), ''individual'', d))"
proof -
  let ?row = "form_row f l individual_answer"
  have "\<not> (\<exists>k \<in> set (required_columns ''individual''). ?row k = None \<and>
        create_individual_proposal_doc idx ?row = Inl (KeyError k))"
    using form_row_complete[of _ f l individual_answer] by fastforce
  with individual_cases[of idx ?row] obtain d where
    "create_individual_proposal_doc idx ?row = Inr d" by blast
  then show ?thesis
    by (simp add: branches_individual form_row_columns(6))
qed

lemma form_row_panel:
  "\<exists>d. parse_row_branches cfg idx (form_row f l panel_answer) =
         Inr (Some (panel (folder_ids cfg), ''panel'', d))"
proof -
  let ?row = "form_row f l panel_answer"
  have "\<not> (\<exists>k \<in> set (required_columns ''panel''). ?row k = None \<and>
        create_panel_proposal_doc idx ?row = Inl (KeyError k))"
    using form_row_complete[of _ f l panel_answer] by fastforce
  with panel_cases[of idx ?row] obtain d where
    "create_panel_proposal_doc idx ?row = Inr d" by blast
  then show ?thesis
    by (simp add: branches_panel form_row_columns(6))
qed

lemma form_row_roundtable:
  "\<exists>d. parse_row_branches cfg idx (form_row f l roundtable_answer) =
         Inr (Some (roundtable (folder_ids cfg), ''roundtable'', d))"
proof -
  let ?row = "form_row f l roundtable_answer"
  have "\<not> (\<exists>k \<in> set (required_columns ''roundtable''). ?row k = None \<and>
        create_roundtable_proposal_doc idx ?row = Inl (KeyError k))"
    using form_row_complete[of _ f l roundtable_answer] by fastforce
  with roundtable_cases[of idx ?row] obtain d where
    "create_roundtable_proposal_doc idx ?row = Inr d" by blast
  then show ?thesis
    by (simp add: branches_roundtable form_row_columns(6))
qed

lemma str_int_small: "str_int 7 = ''7''" "str_int 0 = ''0''"
  by (simp_all add: str_int_def str_nat.simps digit_def)

subsection \<open>Runs on the example inputs\<close>

text \<open>
  Small tables, and the three ways a row of the examples fails.
\<close>

lemma read_csv_examples:
  "read_csv [a] = [(0, a)]" "read_csv [a, b] = [(0, a), (1, b)]"
  "read_csv [a, b, c] = [(0, a), (1, b), (2, c)]"
  by (simp_all add: read_csv_def upt_conv_Cons)

lemma iloc_from_zero: "iloc_from 0 df = df"
  by (simp add: iloc_from_def)

lemma example_unclassified:
  "parse_row cfg gs idx (form_row f l ''A poster'') =
     (Inl (UnboundLocalError ''document''), [ParseRow idx])"
proof -
  have "parse_row_branches cfg idx (form_row f l ''A poster'') = Inr None"
    by (rule branches_unknown[where answer="''A poster''"])
       (simp_all add: form_row_columns individual_answer_def panel_answer_def
          roundtable_answer_def)
  with parse_row_unbound[of "form_row f l ''A poster''" f l cfg idx gs] show ?thesis
    by (simp add: form_row_columns)
qed


lemma example_no_topic:
  "parse_row cfg gs idx (drop_column ''Topic of the panel'' (form_row f l panel_answer)) =
     (Inl (KeyError ''Topic of the panel''), [ParseRow idx])"
  by (simp add: parse_row_def parse_row_branches_def create_panel_proposal_doc_def
      create_base_doc_def drop_column_apply form_row_columns form_row_answer proposal_column_def
      answers_distinct Let_def)

lemma parse_all_returned:
  assumes "get_last_processed_row cfg db = (Inr (Some c), evs0)"
    and "\<forall>(i, row) \<in> set (iloc_from (c + 1) (read_csv table)). fst (parse_row cfg gs i row) = Inr ()"
  shows "fst (parse cfg gs table db) = Inr ()"
    and "fst (snd (parse cfg gs table db)) =
           db(checkpoint_address cfg \<mapsto>
              [''last_processed_row'' \<mapsto> last (c # map fst (iloc_from (c + 1) (read_csv table)))])"
    and "visited (snd (snd (parse cfg gs table db))) = map fst (iloc_from (c + 1) (read_csv table))"
proof -
  let ?df = "iloc_from (c + 1) (read_csv table)"
  obtain evs2 where l: "parse_loop cfg gs ?df c = (Inr (last (c # map fst ?df)), evs2)"
    using parse_loop_all_returned[OF assms(2), of c] by (cases "parse_loop cfg gs ?df c") auto
  note p = parse_completed_run[OF assms(1) l]
  from parse_loop_returned[OF l] have v: "visited evs2 = map fst ?df" by simp
  show "fst (parse cfg gs table db) = Inr ()" using p by simp
  show "fst (snd (parse cfg gs table db)) =
           db(checkpoint_address cfg \<mapsto> [''last_processed_row'' \<mapsto> last (c # map fst ?df)])"
    using p by simp
  show "visited (snd (snd (parse cfg gs table db))) = map fst ?df"
    using p v get_last_processed_row_Some(6)[OF assms(1)] by simp
qed

lemma form_row_returned:
  "fst (parse_row cfg gs idx (form_row f l individual_answer)) = Inr ()"
  "fst (parse_row cfg gs idx (form_row f l panel_answer)) = Inr ()"
  "fst (parse_row cfg gs idx (form_row f l roundtable_answer)) = Inr ()"
  using form_row_individual[of cfg idx f l] form_row_panel[of cfg idx f l]
    form_row_roundtable[of cfg idx f l]
  by (auto simp: parse_row_returned_iff)

lemma collapse3: "p = (fst p, fst (snd p), snd (snd p))"
  by simp

lemma upto_examples: "[1..2] = [1, 2 :: int]" "[0..1] = [0, 1 :: int]" "[2..2] = [2 :: int]"
  by (simp_all add: upto_rec1)

lemma iloc_from_one: "iloc_from 1 (x # xs) = xs"
  by (simp add: iloc_from_def)

lemma stored_again: "(stored c)((Some ''cots'', Some ''state'') \<mapsto> [''last_processed_row'' \<mapsto> k]) = stored k"
  by (simp add: stored_def)

lemma example_upload_fails:
  assumes "fst (parse_row cfg always_http_error idx row) = Inr ()"
  shows "\<exists>gname parent q. parse_row cfg always_http_error idx row =
     (Inr (), [ParseRow idx, LogUploading gname parent, FilesCreate q HttpError, LogHttpError])"
  using assms
  by (rule_tac parse_row_cases[where cfg=cfg and gs=always_http_error and idx=idx and row=row])
     (auto simp: http_error_log_def always_http_error_def)

lemma example_no_topic_individual:
  "fst (parse_row cfg gs idx (drop_column ''Topic of the panel'' (form_row f l individual_answer))) =
     Inr ()"
proof -
  let ?row = "drop_column ''Topic of the panel'' (form_row f l individual_answer)"
  have "\<not> (\<exists>k \<in> set (required_columns ''individual''). ?row k = None \<and>
        create_individual_proposal_doc idx ?row = Inl (KeyError k))"
    unfolding required_columns_simps base_columns_def
    by (simp add: drop_column_apply form_row_columns)
  with individual_cases[of idx ?row] obtain d where
    "create_individual_proposal_doc idx ?row = Inr d" by blast
  moreover have "?row proposal_column = Some individual_answer"
    by (simp add: drop_column_apply proposal_column_def form_row_answer)
  ultimately have "parse_row_branches cfg idx ?row =
      Inr (Some (individual (folder_ids cfg), ''individual'', d))"
    by (simp add: branches_individual)
  then show ?thesis unfolding parse_row_returned_iff by blast
qed

section \<open>The properties of the specification\<close>

subsection \<open>An answer that is none of the known ones\<close>

text \<open>
  C1, where the code departs from it. The first of two new rows answers with a string
  that is none of the three known ones. \<^verbatim>\<open>parse_row\<close> raises
  \<^verbatim>\<open>UnboundLocalError\<close>; the exception leaves the loop and \<^verbatim>\<open>parse\<close>; the second
  row is not visited, nothing is recorded for the first, and the checkpoint is not
  written.
\<close>

theorem unclassified_row_aborts_run:
  "parse example_config always_created
     [form_row ''Ada'' ''Lovelace'' ''A poster'', form_row ''Grace'' ''Hopper'' panel_answer]
     (stored (- 1)) =
   (Inl (UnboundLocalError ''document''), stored (- 1),
    [LogGetting (Some ''cots'') (Some ''state''), LogFound 2, ParseRow 0])"
  by (simp add: parse_def get_stored read_csv_examples iloc_from_zero example_unclassified)

subsection \<open>A row that lacks a required column\<close>




subsection \<open>The checkpoint is written once, or not at all\<close>

text \<open>
  C3. In every run the checkpoint is written exactly once, after the loop, with the
  highest row index reached, or not at all: when \<^verbatim>\<open>parse\<close> returns, its trace ends
  with the only \<open>DbSet\<close> of the run, whose value is the greatest of the checkpoint
  read at the start and the indices visited, and the database differs from the initial
  one by that write alone; when \<^verbatim>\<open>parse\<close> raises, the trace has no \<open>DbSet\<close> and
  the database is unchanged.
\<close>

theorem checkpoint_written_once_or_never:
  assumes "parse cfg gs table db = (r, db', evs)"
  shows "(r = Inr () \<longrightarrow>
           (\<exists>c pre k. fst (get_last_processed_row cfg db) = Inr (Some c) \<and>
              evs = pre @ [DbSet (checkpoint_address cfg) k] \<and> db_sets pre = [] \<and>
              k = Max (set (c # visited evs)) \<and>
              db' = db(checkpoint_address cfg \<mapsto> [''last_processed_row'' \<mapsto> k])))
       \<and> (\<forall>e. r = Inl e \<longrightarrow> db' = db \<and> db_sets evs = [])"
proof -
  obtain r0 evs0 where g: "get_last_processed_row cfg db = (r0, evs0)"
    by (cases "get_last_processed_row cfg db")
  note ge = get_last_processed_row_events[OF g]
  show ?thesis
  proof (cases r0)
    case (Inl e)
    with g assms ge show ?thesis by (auto simp: parse_raised_early)
  next
    case (Inr v)
    show ?thesis
    proof (cases v)
      case None
      with Inr g assms ge show ?thesis by (auto simp: parse_none)
    next
      case (Some c)
      with Inr g have g': "get_last_processed_row cfg db = (Inr (Some c), evs0)" by simp
      let ?df = "iloc_from (c + 1) (read_csv table)"
      obtain r2 evs2 where l: "parse_loop cfg gs ?df c = (r2, evs2)"
        by (cases "parse_loop cfg gs ?df c")
      note s2 = db_sets_parse_loop[OF l]
      show ?thesis
      proof (cases r2)
        case (Inl e)
        from parse_loop_raised_run[OF g' l[unfolded Inl]] assms ge s2
        show ?thesis by auto
      next
        case (Inr k)
        note p = parse_completed_run[OF g' l[unfolded Inr]]
        from parse_loop_returned[OF l[unfolded Inr]]
        have v: "visited evs2 = map fst ?df" and k: "k = last (c # map fst ?df)" by simp_all
        have srt: "sorted (map fst ?df)"
          by (simp add: map_fst_iloc_from sorted_map)
        have "\<forall>i \<in> set (map fst ?df). c < i"
          using slice_indices_above by blast
        from last_is_Max[OF srt this] have m: "k = Max (set (c # map fst ?df))"
          unfolding k by simp
        have f: "visited evs = map fst ?df" "r = Inr ()"
          "db' = db(checkpoint_address cfg \<mapsto> [''last_processed_row'' \<mapsto> k])"
          "evs = (evs0 @ [LogFound (length ?df)] @ evs2) @ [DbSet (checkpoint_address cfg) k]"
          "db_sets (evs0 @ [LogFound (length ?df)] @ evs2) = []"
          using p assms ge s2 v by simp_all
        have "fst (get_last_processed_row cfg db) = Inr (Some c)" using g' by simp
        moreover have "k = Max (set (c # visited evs))" using m f(1) by simp
        ultimately have "\<exists>c pre k. fst (get_last_processed_row cfg db) = Inr (Some c) \<and>
              evs = pre @ [DbSet (checkpoint_address cfg) k] \<and> db_sets pre = [] \<and>
              k = Max (set (c # visited evs)) \<and>
              db' = db(checkpoint_address cfg \<mapsto> [''last_processed_row'' \<mapsto> k])"
          using f(3,4,5) by blast
        then show ?thesis using f(2) by simp
      qed
    qed
  qed
qed

text \<open>
  C3, on a run that returns (one complete row, checkpoint \<open>-1\<close>: the trace ends with the
  write of \<open>0\<close>) and on a run that raises (the checkpoint stays \<open>-1\<close>).
\<close>

theorem checkpoint_written_once_or_never_witness:
  "fst (parse example_config always_created [form_row ''Ada'' ''Lovelace'' panel_answer]
          (stored (- 1))) = Inr () \<and>
   (\<exists>pre. snd (snd (parse example_config always_created
                 [form_row ''Ada'' ''Lovelace'' panel_answer] (stored (- 1)))) =
            pre @ [DbSet (Some ''cots'', Some ''state'') 0] \<and> db_sets pre = []) \<and>
   fst (snd (parse example_config always_created [form_row ''Ada'' ''Lovelace'' panel_answer]
          (stored (- 1)))) = stored 0 \<and>
   fst (parse example_config always_created [form_row ''Ada'' ''Lovelace'' ''A poster'']
          (stored (- 1))) = Inl (UnboundLocalError ''document'') \<and>
   fst (snd (parse example_config always_created [form_row ''Ada'' ''Lovelace'' ''A poster'']
          (stored (- 1)))) = stored (- 1) \<and>
   db_sets (snd (snd (parse example_config always_created
          [form_row ''Ada'' ''Lovelace'' ''A poster''] (stored (- 1))))) = []"
proof -
  let ?A = "parse example_config always_created [form_row ''Ada'' ''Lovelace'' panel_answer]
          (stored (- 1))"
  let ?B = "parse example_config always_created [form_row ''Ada'' ''Lovelace'' ''A poster'']
          (stored (- 1))"
  have ok: "\<forall>(i, row) \<in> set (iloc_from (- 1 + 1) (read_csv [form_row ''Ada'' ''Lovelace'' panel_answer])).
      fst (parse_row example_config always_created i row) = Inr ()"
    by (simp add: read_csv_examples iloc_from_zero form_row_returned)
  note run = parse_all_returned[OF get_stored ok]
  have a: "fst ?A = Inr ()" by (rule run(1))
  have v: "visited (snd (snd ?A)) = [0]"
    using run(3) by (simp add: read_csv_examples iloc_from_zero)
  from checkpoint_written_once_or_never[OF collapse3[of ?A]] a
  obtain c pre k where
    w: "fst (get_last_processed_row example_config (stored (- 1))) = Inr (Some c)"
      "snd (snd ?A) = pre @ [DbSet (checkpoint_address example_config) k]" "db_sets pre = []"
      "k = Max (set (c # visited (snd (snd ?A))))"
      "fst (snd ?A) = (stored (- 1))(checkpoint_address example_config \<mapsto> [''last_processed_row'' \<mapsto> k])"
    by blast
  from w(1) have c: "c = - 1" by (simp add: get_stored)
  from w(4) have k: "k = 0" unfolding v c by simp
  have a2: "\<exists>pre. snd (snd ?A) = pre @ [DbSet (Some ''cots'', Some ''state'') 0] \<and> db_sets pre = []"
    using w(2,3) unfolding k example_checkpoint_address by blast
  have a3: "fst (snd ?A) = stored 0"
    using w(5) unfolding k example_checkpoint_address by (simp add: stored_def)
  have b: "fst ?B = Inl (UnboundLocalError ''document'')"
    by (simp add: parse_def get_stored read_csv_examples iloc_from_zero example_unclassified)
  from checkpoint_written_once_or_never[OF collapse3[of ?B]] b
  have b2: "fst (snd ?B) = stored (- 1)" "db_sets (snd (snd ?B)) = []" by simp_all
  from a a2 a3 b b2 show ?thesis by blast
qed

subsection \<open>An upload that fails\<close>

text \<open>
  C4 fails as stated. The upload of row \<open>0\<close> fails with \<^verbatim>\<open>HttpError\<close> and is
  logged; row \<open>1\<close> then raises \<^verbatim>\<open>KeyError\<close>, so row \<open>2\<close> is not processed and
  the checkpoint stays \<open>-1\<close>, below the index of the row whose upload failed.
\<close>

theorem http_error_counterexample:
  "LogHttpError \<in> set (snd (snd (parse example_config always_http_error
     [drop_column ''Topic of the panel'' (form_row ''Ada'' ''Lovelace'' individual_answer),
      drop_column ''Topic of the panel'' (form_row ''Grace'' ''Hopper'' panel_answer),
      drop_column ''Topic of the panel'' (form_row ''Alan'' ''Turing'' individual_answer)]
     (stored (- 1))))) \<and>
   fst (parse example_config always_http_error
     [drop_column ''Topic of the panel'' (form_row ''Ada'' ''Lovelace'' individual_answer),
      drop_column ''Topic of the panel'' (form_row ''Grace'' ''Hopper'' panel_answer),
      drop_column ''Topic of the panel'' (form_row ''Alan'' ''Turing'' individual_answer)]
     (stored (- 1))) = Inl (KeyError ''Topic of the panel'') \<and>
   visited (snd (snd (parse example_config always_http_error
     [drop_column ''Topic of the panel'' (form_row ''Ada'' ''Lovelace'' individual_answer),
      drop_column ''Topic of the panel'' (form_row ''Grace'' ''Hopper'' panel_answer),
      drop_column ''Topic of the panel'' (form_row ''Alan'' ''Turing'' individual_answer)]
     (stored (- 1))))) = [0, 1] \<and>
   fst (snd (parse example_config always_http_error
     [drop_column ''Topic of the panel'' (form_row ''Ada'' ''Lovelace'' individual_answer),
      drop_column ''Topic of the panel'' (form_row ''Grace'' ''Hopper'' panel_answer),
      drop_column ''Topic of the panel'' (form_row ''Alan'' ''Turing'' individual_answer)]
     (stored (- 1)))) = stored (- 1)"
proof -
  let ?a = "drop_column ''Topic of the panel'' (form_row ''Ada'' ''Lovelace'' individual_answer)"
  let ?b = "drop_column ''Topic of the panel'' (form_row ''Grace'' ''Hopper'' panel_answer)"
  let ?c = "drop_column ''Topic of the panel'' (form_row ''Alan'' ''Turing'' individual_answer)"
  from example_upload_fails[OF example_no_topic_individual, of example_config 0 "''Ada''" "''Lovelace''"]
  obtain gname parent q where
    a: "parse_row example_config always_http_error 0 ?a =
     (Inr (), [ParseRow 0, LogUploading gname parent, FilesCreate q HttpError, LogHttpError])"
    by blast
  have b: "parse_row example_config always_http_error 1 ?b =
     (Inl (KeyError ''Topic of the panel''), [ParseRow 1])"
    by (rule example_no_topic)
  have "parse example_config always_http_error [?a, ?b, ?c] (stored (- 1)) =
     (Inl (KeyError ''Topic of the panel''), stored (- 1),
      [LogGetting (Some ''cots'') (Some ''state''), LogFound 3,
       ParseRow 0, LogUploading gname parent, FilesCreate q HttpError, LogHttpError,
       Sleep 3, ParseRow 1])"
    by (simp add: parse_def get_stored read_csv_examples iloc_from_zero a b)
  then show ?thesis by simp
qed

text \<open>
  C4, as amended. When the upload of a new row \<open>j\<close> fails with \<^verbatim>\<open>HttpError\<close>,
  \<^verbatim>\<open>parse_row\<close> logs the error and returns; and when every new row is classified and
  built, so that no row raises another exception, the run returns, every new row is
  visited whatever Drive answers, and the checkpoint written is at least \<open>j\<close>.
\<close>

theorem http_error_caught_and_run_continues:
  assumes "fst (get_last_processed_row cfg db) = Inr (Some c)"
    and "\<forall>(i, row) \<in> set (iloc_from (c + 1) (read_csv table)).
           \<exists>t. parse_row_branches cfg i row = Inr (Some t)"
    and "(j, rowj) \<in> set (iloc_from (c + 1) (read_csv table))"
    and "FilesCreate q HttpError \<in> set (snd (parse_row cfg gs j rowj))"
    and "parse cfg gs table db = (r, db', evs)"
  shows "fst (parse_row cfg gs j rowj) = Inr () \<and>
         (\<exists>pre post. evs = pre @ [FilesCreate q HttpError, LogHttpError] @ post) \<and>
         r = Inr () \<and>
         visited evs = map fst (iloc_from (c + 1) (read_csv table)) \<and>
         (\<exists>k. db' (checkpoint_address cfg) = Some [''last_processed_row'' \<mapsto> k] \<and> j \<le> k)"
proof -
  let ?df = "iloc_from (c + 1) (read_csv table)"
  obtain evs0 where g: "get_last_processed_row cfg db = (Inr (Some c), evs0)"
    using assms(1) by (cases "get_last_processed_row cfg db") auto
  have ok: "\<forall>(i, row) \<in> set ?df. fst (parse_row cfg gs i row) = Inr ()"
    using assms(2) by (auto simp: parse_row_returned_iff)
  from parse_row_http_error[OF assms(4)] obtain gname parent where
    pj: "parse_row cfg gs j rowj =
       (Inr (), [ParseRow j, LogUploading gname parent, FilesCreate q HttpError, LogHttpError])"
    by blast
  let ?k = "last (c # map fst ?df)"
  obtain evs2 where l: "parse_loop cfg gs ?df c = (Inr ?k, evs2)"
    using parse_loop_all_returned[OF ok, of c] by (cases "parse_loop cfg gs ?df c") auto
  note p = parse_completed_run[OF g l]
  from parse_loop_returned[OF l] have v: "visited evs2 = map fst ?df" by simp
  from parse_loop_contains[OF assms(3) ok, of c] l pj obtain pre post where
    e2: "evs2 = pre @ [ParseRow j, LogUploading gname parent, FilesCreate q HttpError, LogHttpError] @ post"
    by auto
  have "evs = (evs0 @ [LogFound (length ?df)] @ pre @ [ParseRow j, LogUploading gname parent])
      @ [FilesCreate q HttpError, LogHttpError] @ (post @ [DbSet (checkpoint_address cfg) ?k])"
    using p assms(5) e2 by simp
  then have c2: "\<exists>pre post. evs = pre @ [FilesCreate q HttpError, LogHttpError] @ post" by blast
  have srt: "sorted (c # map fst ?df)"
    using slice_indices_above[of _ c table] by (auto simp: map_fst_iloc_from sorted_map less_imp_le)
  have "j \<in> set (c # map fst ?df)" using assms(3) by force
  from sorted_le_last[OF srt this] have jk: "j \<le> ?k" .
  have "db' (checkpoint_address cfg) = Some [''last_processed_row'' \<mapsto> ?k]"
    using p assms(5) by simp
  with jk have c5: "\<exists>k. db' (checkpoint_address cfg) = Some [''last_processed_row'' \<mapsto> k] \<and> j \<le> k"
    by blast
  have c4: "visited evs = map fst ?df"
    using p assms(5) v get_last_processed_row_Some(6)[OF g] by simp
  have c3: "r = Inr ()" using p assms(5) by simp
  have c1: "fst (parse_row cfg gs j rowj) = Inr ()" using pj by simp
  from c1 c2 c3 c4 c5 show ?thesis by blast
qed

text \<open>
  C4 as amended, on two complete rows whose uploads both fail: both rows are visited and
  the checkpoint written is at least \<open>0\<close>.
\<close>

theorem http_error_caught_and_run_continues_witness:
  "fst (get_last_processed_row example_config (stored (- 1))) = Inr (Some (- 1)) \<and>
   (\<exists>q. FilesCreate q HttpError \<in> set (snd (parse_row example_config always_http_error 0
          (form_row ''Ada'' ''Lovelace'' individual_answer)))) \<and>
   fst (parse example_config always_http_error
          [form_row ''Ada'' ''Lovelace'' individual_answer,
           form_row ''Grace'' ''Hopper'' panel_answer] (stored (- 1))) = Inr () \<and>
   visited (snd (snd (parse example_config always_http_error
          [form_row ''Ada'' ''Lovelace'' individual_answer,
           form_row ''Grace'' ''Hopper'' panel_answer] (stored (- 1))))) = [0, 1] \<and>
   (\<exists>k. fst (snd (parse example_config always_http_error
          [form_row ''Ada'' ''Lovelace'' individual_answer,
           form_row ''Grace'' ''Hopper'' panel_answer] (stored (- 1))))
          (Some ''cots'', Some ''state'') = Some [''last_processed_row'' \<mapsto> k] \<and> 0 \<le> k)"
proof -
  let ?a = "form_row ''Ada'' ''Lovelace'' individual_answer"
  let ?b = "form_row ''Grace'' ''Hopper'' panel_answer"
  let ?P = "parse example_config always_http_error [?a, ?b] (stored (- 1))"
  have df: "iloc_from (- 1 + 1) (read_csv [?a, ?b]) = [(0, ?a), (1, ?b)]"
    by (simp add: read_csv_examples iloc_from_zero)
  have h1: "fst (get_last_processed_row example_config (stored (- 1))) = Inr (Some (- 1))"
    by (simp add: get_stored)
  have h2: "\<forall>(i, row) \<in> set (iloc_from (- 1 + 1) (read_csv [?a, ?b])).
           \<exists>t. parse_row_branches example_config i row = Inr (Some t)"
    unfolding df
    using form_row_individual[of example_config 0 "''Ada''" "''Lovelace''"]
      form_row_panel[of example_config 1 "''Grace''" "''Hopper''"] by auto
  have h3: "(0, ?a) \<in> set (iloc_from (- 1 + 1) (read_csv [?a, ?b]))"
    unfolding df by simp
  from example_upload_fails[OF form_row_returned(1), of example_config 0 "''Ada''" "''Lovelace''"]
  obtain q where h4: "FilesCreate q HttpError \<in>
      set (snd (parse_row example_config always_http_error 0 ?a))" by auto
  from http_error_caught_and_run_continues[OF h1 h2 h3 h4 collapse3[of ?P]]
  have "fst ?P = Inr ()" "visited (snd (snd ?P)) = [0, 1]"
    "\<exists>k. fst (snd ?P) (checkpoint_address example_config) = Some [''last_processed_row'' \<mapsto> k]
        \<and> 0 \<le> k"
    unfolding df by simp_all
  with h1 h4 show ?thesis unfolding example_checkpoint_address by blast
qed

subsection \<open>The rows visited\<close>

text \<open>
  C5 fails as stated. The table has two rows and the checkpoint is \<open>-1\<close>, but the
  first row raises \<^verbatim>\<open>KeyError\<close> and the loop visits one row, not two.
\<close>

theorem visits_counterexample:
  "fst (get_last_processed_row example_config (stored (- 1))) = Inr (Some (- 1)) \<and>
   (- 1 :: int) < int (length
     [drop_column ''Topic of the panel'' (form_row ''Grace'' ''Hopper'' panel_answer),
      drop_column ''Topic of the panel'' (form_row ''Ada'' ''Lovelace'' individual_answer)]) - 1 \<and>
   visited (snd (snd (parse example_config always_created
     [drop_column ''Topic of the panel'' (form_row ''Grace'' ''Hopper'' panel_answer),
      drop_column ''Topic of the panel'' (form_row ''Ada'' ''Lovelace'' individual_answer)]
     (stored (- 1))))) = [0]"
  by (simp add: parse_def get_stored read_csv_examples iloc_from_zero example_no_topic)

text \<open>
  C5, as amended. With a table of \<open>N\<close> rows and a stored checkpoint \<open>c\<close>,
  \<open>-1 \<le> c < N - 1\<close>, the loop is given exactly the \<open>N - 1 - c\<close> rows of indices
  \<open>c + 1\<close> to \<open>N - 1\<close>, in strictly increasing order. The rows it visits are an
  initial segment of that sequence, beginning with \<open>c + 1\<close>: an exception of
  \<^verbatim>\<open>parse_row\<close> ends the loop. When no row raises, the run returns and has visited
  all of them.
\<close>

theorem visits_new_rows_in_order:
  assumes "fst (get_last_processed_row cfg db) = Inr (Some c)"
    and "- 1 \<le> c" and "c < int (length table) - 1"
    and "parse cfg gs table db = (r, db', evs)"
  shows "map fst (iloc_from (c + 1) (read_csv table)) = [c + 1..int (length table) - 1] \<and>
         length (iloc_from (c + 1) (read_csv table)) = nat (int (length table) - 1 - c) \<and>
         sorted_wrt (<) [c + 1..int (length table) - 1] \<and>
         (\<exists>n. visited evs = (c + 1) # take n [c + 2..int (length table) - 1]) \<and>
         ((\<forall>(i, row) \<in> set (iloc_from (c + 1) (read_csv table)).
              fst (parse_row cfg gs i row) = Inr ()) \<longrightarrow>
            r = Inr () \<and> visited evs = [c + 1..int (length table) - 1])"
proof -
  let ?df = "iloc_from (c + 1) (read_csv table)"
  let ?N = "int (length table)"
  obtain evs0 where g: "get_last_processed_row cfg db = (Inr (Some c), evs0)"
    using assms(1) by (cases "get_last_processed_row cfg db") auto
  note v0 = get_last_processed_row_Some(6)[OF g]
  have ix: "map fst ?df = [c + 1..?N - 1]" by (rule to_be_processed_indices[OF assms(2)])
  have "length (map fst ?df) = nat (?N - 1 - c)" unfolding ix using assms(3) by simp
  then have len: "length ?df = nat (?N - 1 - c)" by simp
  have up: "[c + 1..?N - 1] = (c + 1) # [c + 2..?N - 1]"
    using assms(3) by (simp add: upto_rec1 add.commute)
  have srt: "sorted_wrt (<) [c + 1..?N - 1]" by simp
  obtain idx row rest where df: "?df = (idx, row) # rest"
    using ix up by (cases ?df) auto
  with ix up have idx: "idx = c + 1" and rest: "map fst rest = [c + 2..?N - 1]" by simp_all
  obtain r2 evs2 where l: "parse_loop cfg gs ?df c = (r2, evs2)"
    by (cases "parse_loop cfg gs ?df c")
  from parse_loop_first_visit[OF l[unfolded df]] obtain n where
    n: "visited evs2 = (c + 1) # take n [c + 2..?N - 1]" unfolding idx rest by blast
  have ve: "visited evs = visited evs2"
  proof (cases r2)
    case (Inl e)
    from parse_loop_raised_run[OF g l[unfolded Inl]] assms(4) v0 show ?thesis by auto
  next
    case (Inr k)
    from parse_completed_run[OF g l[unfolded Inr]] assms(4) v0 show ?thesis by auto
  qed
  have c4: "\<exists>n. visited evs = (c + 1) # take n [c + 2..?N - 1]" using n ve by auto
  have c5: "(\<forall>(i, row) \<in> set ?df. fst (parse_row cfg gs i row) = Inr ()) \<longrightarrow>
            r = Inr () \<and> visited evs = [c + 1..?N - 1]"
  proof
    assume ok: "\<forall>(i, row) \<in> set ?df. fst (parse_row cfg gs i row) = Inr ()"
    from parse_loop_all_returned[OF ok, of c] l have r2: "r2 = Inr (last (c # map fst ?df))" by simp
    from parse_loop_returned[OF l[unfolded r2]] have "visited evs2 = map fst ?df" by simp
    moreover from parse_completed_run[OF g l[unfolded r2]] assms(4) have "r = Inr ()" by simp
    ultimately show "r = Inr () \<and> visited evs = [c + 1..?N - 1]" using ve ix by simp
  qed
  from ix len srt c4 c5 show ?thesis by blast
qed

text \<open>
  C5 as amended, on three complete rows with the checkpoint \<open>0\<close>: rows \<open>1\<close> and
  \<open>2\<close> are visited, in that order.
\<close>

theorem visits_new_rows_in_order_witness:
  "fst (get_last_processed_row example_config (stored 0)) = Inr (Some 0) \<and>
   (0 :: int) < int (length [form_row ''Ada'' ''Lovelace'' individual_answer,
       form_row ''Grace'' ''Hopper'' panel_answer,
       form_row ''Alan'' ''Turing'' roundtable_answer]) - 1 \<and>
   fst (parse example_config always_created
      [form_row ''Ada'' ''Lovelace'' individual_answer,
       form_row ''Grace'' ''Hopper'' panel_answer,
       form_row ''Alan'' ''Turing'' roundtable_answer] (stored 0)) = Inr () \<and>
   visited (snd (snd (parse example_config always_created
      [form_row ''Ada'' ''Lovelace'' individual_answer,
       form_row ''Grace'' ''Hopper'' panel_answer,
       form_row ''Alan'' ''Turing'' roundtable_answer] (stored 0)))) = [1, 2]"
proof -
  let ?t = "[form_row ''Ada'' ''Lovelace'' individual_answer,
       form_row ''Grace'' ''Hopper'' panel_answer,
       form_row ''Alan'' ''Turing'' roundtable_answer]"
  let ?P = "parse example_config always_created ?t (stored 0)"
  have h1: "fst (get_last_processed_row example_config (stored 0)) = Inr (Some 0)"
    by (simp add: get_stored)
  have h2: "- 1 \<le> (0 :: int)" by simp
  have h3: "(0 :: int) < int (length ?t) - 1" by simp
  have ok: "\<forall>(i, row) \<in> set (iloc_from (0 + 1) (read_csv ?t)).
      fst (parse_row example_config always_created i row) = Inr ()"
    by (simp add: read_csv_examples iloc_from_one form_row_returned)
  from visits_new_rows_in_order[OF h1 h2 h3 collapse3[of ?P]] ok
  have "fst ?P = Inr () \<and> visited (snd (snd ?P)) = [0 + 1..int (length ?t) - 1]" by blast
  then have "fst ?P = Inr ()" "visited (snd (snd ?P)) = [1, 2]"
    by (simp_all add: upto_examples)
  with h1 h3 show ?thesis by blast
qed

subsection \<open>A table without new rows\<close>

text \<open>
  C6. When the stored checkpoint \<open>c\<close> is the index of the last row, the run visits no
  row and sends nothing to Drive; its only effects are its two log lines and one write of
  the same value \<open>c\<close>. The checkpoint read afterwards is \<open>c\<close>, and a second run
  leaves the database as the first one did.
\<close>

theorem no_new_rows_rewrites_checkpoint:
  assumes "fst (get_last_processed_row cfg db) = Inr (Some c)"
    and "c = int (length table) - 1"
  shows "parse cfg gs table db =
           (Inr (), db(checkpoint_address cfg \<mapsto> [''last_processed_row'' \<mapsto> c]),
            snd (get_last_processed_row cfg db) @ [LogFound 0, DbSet (checkpoint_address cfg) c]) \<and>
         visited (snd (snd (parse cfg gs table db))) = [] \<and>
         uploads (snd (snd (parse cfg gs table db))) = [] \<and>
         db_sets (snd (snd (parse cfg gs table db))) = [c] \<and>
         fst (get_last_processed_row cfg (fst (snd (parse cfg gs table db)))) = Inr (Some c) \<and>
         fst (snd (parse cfg gs table (fst (snd (parse cfg gs table db))))) =
           fst (snd (parse cfg gs table db))"
proof -
  let ?a = "checkpoint_address cfg"
  let ?db' = "db(?a \<mapsto> [''last_processed_row'' \<mapsto> c])"
  obtain evs0 where g: "get_last_processed_row cfg db = (Inr (Some c), evs0)"
    using assms(1) by (cases "get_last_processed_row cfg db") auto
  have e: "iloc_from (c + 1) (read_csv table) = []"
    using assms(2) by (simp add: iloc_from_def)
  have l: "parse_loop cfg gs (iloc_from (c + 1) (read_csv table)) c = (Inr c, [])"
    unfolding e by simp
  from parse_completed_run[OF g l] e
  have p: "parse cfg gs table db = (Inr (), ?db', evs0 @ [LogFound 0, DbSet ?a c])" by simp
  have g': "get_last_processed_row cfg ?db' = (Inr (Some c), evs0)"
    using g get_last_processed_row_Some(1,2)[OF g]
    by (auto simp: get_last_processed_row_def checkpoint_address_def split: option.splits)
  from parse_completed_run[OF g' l] e
  have p': "parse cfg gs table ?db' = (Inr (), ?db', evs0 @ [LogFound 0, DbSet ?a c])" by simp
  show ?thesis
    using g g' p p' get_last_processed_row_Some(5,6,7)[OF g] by simp
qed

text \<open>
  C6, on a table of one row with the checkpoint \<open>0\<close>: the database is the same after
  the run.
\<close>

theorem no_new_rows_rewrites_checkpoint_witness:
  "fst (get_last_processed_row example_config (stored 0)) = Inr (Some 0) \<and>
   (0 :: int) = int (length [form_row ''Ada'' ''Lovelace'' panel_answer]) - 1 \<and>
   parse example_config always_created [form_row ''Ada'' ''Lovelace'' panel_answer] (stored 0) =
     (Inr (), stored 0,
      [LogGetting (Some ''cots'') (Some ''state''), LogFound 0,
       DbSet (Some ''cots'', Some ''state'') 0])"
proof -
  have h1: "fst (get_last_processed_row example_config (stored 0)) = Inr (Some 0)"
    by (simp add: get_stored)
  have h2: "(0 :: int) = int (length [form_row ''Ada'' ''Lovelace'' panel_answer]) - 1" by simp
  from no_new_rows_rewrites_checkpoint[OF h1 h2, of always_created] h1 h2 show ?thesis
    by (simp add: example_checkpoint_address stored_again get_stored)
qed

subsection \<open>Reading the checkpoint\<close>




subsection \<open>The name of the uploaded document\<close>

text \<open>
  C8. For a row that is classified and built, \<^verbatim>\<open>parse_row\<close> returns and sends one
  document to Drive, whose name is the first name, a space, the last name, then
  \<^verbatim>\<open> (id-\<close>, the row index in decimal, \<^verbatim>\<open> type-\<close>, the proposal type and \<^verbatim>\<open>)\<close>.
\<close>

theorem document_name_format:
  assumes "parse_row_branches cfg idx row = Inr (Some (parent, proposal_type, d))"
  shows "\<exists>first_name last_name.
           row ''First name'' = Some first_name \<and> row ''Last name'' = Some last_name \<and>
           fst (parse_row cfg gs idx row) = Inr () \<and>
           uploaded_names (snd (parse_row cfg gs idx row)) =
             [first_name @ '' '' @ last_name @
              '' (id-'' @ str_int idx @ '' type-'' @ proposal_type @ '')''] \<and>
           proposal_type \<in> {''individual'', ''panel'', ''roundtable''}"
proof -
  from branches_Some[OF assms] obtain f l where
    fl: "row ''First name'' = Some f" "row ''Last name'' = Some l" by blast
  have t: "proposal_type \<in> {''individual'', ''panel'', ''roundtable''}"
    using assms
    by (auto simp: parse_row_branches_def and_then_eq_Inr split: if_splits)
  have "fst (parse_row cfg gs idx row) = Inr ()"
    and "uploaded_names (snd (parse_row cfg gs idx row)) =
       [f @ '' '' @ l @ '' (id-'' @ str_int idx @ '' type-'' @ proposal_type @ '')'']"
    by (cases "gs (upload_request (gdoc_name (f @ '' '' @ l) idx proposal_type) parent d)";
        simp add: parse_row_built[OF fl assms] Let_def gdoc_name_def upload_request_def
          http_error_log_def uploaded_names_def)+
  with fl t show ?thesis by blast
qed

text \<open>
  C8, for row \<open>7\<close>, a panel proposal of Ada Lovelace: the name is
  \<^verbatim>\<open>Ada Lovelace (id-7 type-panel)\<close>.
\<close>

theorem document_name_format_witness:
  "(\<exists>parent d. parse_row_branches example_config 7 (form_row ''Ada'' ''Lovelace'' panel_answer) =
       Inr (Some (parent, ''panel'', d))) \<and>
   uploaded_names (snd (parse_row example_config always_created 7
       (form_row ''Ada'' ''Lovelace'' panel_answer))) = [''Ada Lovelace (id-7 type-panel)'']"
proof -
  from form_row_panel[of example_config 7 "''Ada''" "''Lovelace''"] obtain d where
    b: "parse_row_branches example_config 7 (form_row ''Ada'' ''Lovelace'' panel_answer) =
          Inr (Some (panel (folder_ids example_config), ''panel'', d))" by blast
  from document_name_format[OF b, of always_created] b show ?thesis
    by (auto simp: form_row_columns str_int_small)
qed

subsection \<open>Classification\<close>



subsection \<open>Storage types other than firebase\<close>

text \<open>
  C10. With a storage type other than \<^verbatim>\<open>"firebase"\<close>, \<^verbatim>\<open>get_last_processed_row\<close>
  returns \<^verbatim>\<open>None\<close>, \<^verbatim>\<open>update_last_processed_row\<close> writes nothing, and
  \<^verbatim>\<open>parse\<close> raises \<^verbatim>\<open>TypeError\<close> at \<^verbatim>\<open>last_processed_row + 1\<close> before it visits
  a row. The storage type is \<^verbatim>\<open>"file"\<close> when \<^verbatim>\<open>WORKING_STORAGE_TYPE\<close> is unset.
\<close>

theorem other_storage_not_functional:
  assumes "storage_type (working_storage cfg) \<noteq> ''firebase''"
  shows "get_last_processed_row cfg db = (Inr None, []) \<and>
         update_last_processed_row cfg row_idx db = (Inr (), db, []) \<and>
         parse cfg gs table db = (Inl TypeError, db, []) \<and>
         (env ''WORKING_STORAGE_TYPE'' = None \<longrightarrow>
            storage_type (working_storage (load_config env)) = ''file'')"
  using assms
  by (simp add: get_last_processed_row_def update_last_processed_row_def parse_def
      load_config_def load_working_storage_def getenv_default_def)

text \<open>
  C10, with the configuration loaded from an empty environment.
\<close>

theorem other_storage_not_functional_witness:
  "storage_type (working_storage (load_config Map.empty)) \<noteq> ''firebase'' \<and>
   get_last_processed_row (load_config Map.empty) (stored 4) = (Inr None, []) \<and>
   update_last_processed_row (load_config Map.empty) 5 (stored 4) = (Inr (), stored 4, []) \<and>
   parse (load_config Map.empty) always_created [form_row ''Ada'' ''Lovelace'' panel_answer]
     (stored 4) = (Inl TypeError, stored 4, []) \<and>
   storage_type (working_storage (load_config Map.empty)) = ''file''"
proof -
  have h: "storage_type (working_storage (load_config Map.empty)) \<noteq> ''firebase''"
    by (simp add: load_config_def load_working_storage_def getenv_default_def)
  from other_storage_not_functional[OF h, of "stored 4" 5 always_created
      "[form_row ''Ada'' ''Lovelace'' panel_answer]" Map.empty] h
  show ?thesis by simp
qed

end
